theory Spec2Isabelle
  imports Main "HOL-Library.Char_ord" "HOL-Library.List_Lexorder" "HOL-Library.Multiset"
begin

section \<open>JavaScript values, objects, Maps and Sets as run.js uses them\<close>

text \<open>
  The values that flow through \<^verbatim>\<open>src/cli/commands/run.js\<close>: strings, \<^verbatim>\<open>undefined\<close>
  (a missing Map entry or property), and the members an object inherits from its
  prototype, each known by its name. \<open>truthy\<close> is JavaScript's boolean coercion, which
  \<^verbatim>\<open>invariant(x, ...)\<close>, \<^verbatim>\<open>x || y\<close> and \<^verbatim>\<open>if (x)\<close> apply: the empty string and
  \<^verbatim>\<open>undefined\<close> are falsy.
\<close>

datatype js_value = Undefined | Str string | Builtin string

fun truthy :: "js_value \<Rightarrow> bool" where
  "truthy Undefined = False"
| "truthy (Str s) = (s \<noteq> [])"
| "truthy (Builtin n) = True"

definition js_or :: "js_value \<Rightarrow> js_value \<Rightarrow> js_value" where
  \<comment> \<open>\<^verbatim>\<open>a || b\<close>\<close>
  "js_or a b = (if truthy a then a else b)"

text \<open>
  \<^verbatim>\<open>pkg.scripts\<close> is the \<^verbatim>\<open>scripts\<close> object of the manifest. Its own properties are the
  declared scripts (name and command text; a lookup takes the first pair of a name). What
  it inherits from its prototype depends on how the manifest reader built it: a plain
  object inherits the members of \<^verbatim>\<open>Object.prototype\<close> (\<^verbatim>\<open>toString\<close>, \<^verbatim>\<open>constructor\<close>, ...),
  an object without prototype inherits nothing. The reader is outside run.js, so the
  inherited names are part of the input. \<^verbatim>\<open>Object.keys\<close> lists the own names only; the
  \<^verbatim>\<open>in\<close> operator and a property read also see the inherited members.
\<close>

record js_object =
  own :: "(string \<times> string) list"
  inherited :: "string list"

definition Object_keys :: "js_object \<Rightarrow> string list" where
  "Object_keys obj = remdups (map fst (own obj))"

definition js_in :: "string \<Rightarrow> js_object \<Rightarrow> bool" where
  \<comment> \<open>\<^verbatim>\<open>k in obj\<close>\<close>
  "js_in k obj = (k \<in> set (map fst (own obj)) \<or> k \<in> set (inherited obj))"

definition js_get :: "js_object \<Rightarrow> string \<Rightarrow> js_value" where
  \<comment> \<open>\<^verbatim>\<open>obj[k]\<close>\<close>
  "js_get obj k =
     (case map_of (own obj) k of
        Some v \<Rightarrow> Str v
      | None \<Rightarrow> if k \<in> set (inherited obj) then Builtin k else Undefined)"

text \<open>
  A \<^verbatim>\<open>Map\<close> object keeps its entries in an internal list, in insertion order, apart from
  the object's own properties. \<^verbatim>\<open>set\<close>, \<^verbatim>\<open>get\<close> and \<^verbatim>\<open>has\<close> work on the entries;
  a \<^verbatim>\<open>for (... in m)\<close> loop enumerates the property names.
\<close>

record js_map =
  mapData :: "(string \<times> js_value) list"
  ownProps :: "string list"

definition new_Map :: js_map where
  "new_Map = \<lparr>mapData = [], ownProps = []\<rparr>"

fun upsert :: "string \<Rightarrow> js_value \<Rightarrow> (string \<times> js_value) list \<Rightarrow> (string \<times> js_value) list" where
  "upsert k v [] = [(k, v)]"
| "upsert k v ((k', v') # kvs) = (if k' = k then (k, v) # kvs else (k', v') # upsert k v kvs)"

definition map_set :: "string \<Rightarrow> js_value \<Rightarrow> js_map \<Rightarrow> js_map" where
  "map_set k v m = m\<lparr>mapData := upsert k v (mapData m)\<rparr>"

definition map_get :: "js_map \<Rightarrow> string \<Rightarrow> js_value" where
  "map_get m k = (case map_of (mapData m) k of Some v \<Rightarrow> v | None \<Rightarrow> Undefined)"

definition map_has :: "js_map \<Rightarrow> string \<Rightarrow> bool" where
  "map_has m k = (k \<in> set (map fst (mapData m)))"

definition for_in_keys :: "js_map \<Rightarrow> string list" where
  "for_in_keys m = ownProps m"

text \<open>A \<^verbatim>\<open>Set\<close> of strings, in insertion order.\<close>

definition set_add :: "string \<Rightarrow> string list \<Rightarrow> string list" where
  "set_add x xs = (if x \<in> set xs then xs else xs @ [x])"

section \<open>The collaborators of run.js\<close>

text \<open>
  Everything run.js imports or is handed: Node's \<^verbatim>\<open>path.join\<close>, puka's \<^verbatim>\<open>quoteForShell\<close>
  and its template \<^verbatim>\<open>sh`${unquoted(cmd)} ${args}`\<close>, \<^verbatim>\<open>JSON.stringify\<close> on a string,
  \<^verbatim>\<open>leven\<close>, \<^verbatim>\<open>execCommand\<close> (\<open>None\<close> when the step completes, \<open>Some e\<close> when it throws),
  the text \<^verbatim>\<open>JSON.stringify(await makeEnv(...), null, 2)\<close>, the option \<^verbatim>\<open>script-shell\<close>,
  \<^verbatim>\<open>reporter.lang\<close>, and the file system (\<open>readdir d = None\<close> when \<^verbatim>\<open>fs.exists(d)\<close> is
  false, the directory's entries otherwise). Their code is outside this file, so the
  model takes them as parameters.
\<close>

record collaborators =
  path_join :: "string \<Rightarrow> string \<Rightarrow> string"
  quoteForShell :: "string \<Rightarrow> string"
  sh_unquoted_args :: "js_value \<Rightarrow> string list \<Rightarrow> string"
  JSON_stringify :: "string \<Rightarrow> string"
  leven :: "string \<Rightarrow> string \<Rightarrow> nat"
  execCommand :: "string \<Rightarrow> js_value \<Rightarrow> string option \<Rightarrow> string option"
  makeEnv_text :: string
  script_shell :: "string option"
  lang :: "string \<Rightarrow> string"
  readdir :: "string \<Rightarrow> string list option"

section \<open>Building the script table (run, lines 58 to 80)\<close>

record tables =
  scripts :: js_map
  binCommands :: "string list"
  pkgCommands :: "string list"

definition empty_tables :: tables where
  "empty_tables = \<lparr>scripts = new_Map, binCommands = [], pkgCommands = []\<rparr>"

definition add_bin :: "collaborators \<Rightarrow> string \<Rightarrow> tables \<Rightarrow> string \<Rightarrow> tables" where
  "add_bin c binFolder t name =
     t\<lparr>scripts := map_set name (Str (quoteForShell c (path_join c binFolder name))) (scripts t),
       binCommands := set_add name (binCommands t)\<rparr>"

definition scan_folder :: "collaborators \<Rightarrow> tables \<Rightarrow> string \<Rightarrow> tables" where
  "scan_folder c t binFolder =
     (case readdir c binFolder of
        None \<Rightarrow> t
      | Some names \<Rightarrow> foldl (add_bin c binFolder) t names)"

definition add_pkg :: "js_object \<Rightarrow> tables \<Rightarrow> string \<Rightarrow> tables" where
  "add_pkg pkgScripts t name =
     t\<lparr>scripts := map_set name (js_or (js_get pkgScripts name) (Str [])) (scripts t),
       pkgCommands := set_add name (pkgCommands t)\<rparr>"

definition build_tables :: "collaborators \<Rightarrow> string list \<Rightarrow> js_object option \<Rightarrow> tables" where
  "build_tables c binFolders pkgScripts =
     (let t = foldl (scan_folder c) empty_tables binFolders
      in case pkgScripts of
           None \<Rightarrow> t
         | Some ps \<Rightarrow> foldl (add_pkg ps) t (sort (Object_keys ps)))"

section \<open>Resolving and running an action (runCommand, lines 82 to 139)\<close>

datatype error = InvariantViolation string | MessageError string | ExecFailure string

datatype result = Fulfilled | Rejected error

datatype event =
    ReportError string
  | ReportInfo string
  | ReportList string "string list" "(string \<times> js_value) list"
  | ReportLog string
  | Question string
  | ExecCommand string js_value "string option"

text \<open>
  The state run.js changes: the process environment (\<^verbatim>\<open>process.env\<close>) and, as a trace, the
  calls it makes to the reporter and to \<^verbatim>\<open>execCommand\<close>, in order. An \<open>ExecCommand\<close>
  event is recorded when the step is started, with its stage, its command and the shell.
\<close>

record state =
  process_env :: "string \<rightharpoonup> string"
  trace :: "event list"

definition emit :: "event \<Rightarrow> state \<Rightarrow> state" where
  "emit e st = st\<lparr>trace := trace st @ [e]\<rparr>"

type_synonym step = "string \<times> js_value"

definition hook :: "js_object \<Rightarrow> string \<Rightarrow> step list" where
  \<comment> \<open>\<^verbatim>\<open>if (name in pkgScripts) cmds.push([name, pkgScripts[name]])\<close>\<close>
  "hook pkgScripts name =
     (if js_in name pkgScripts then [(name, js_get pkgScripts name)] else [])"

definition lifecycle_cmds :: "js_object \<Rightarrow> js_map \<Rightarrow> string \<Rightarrow> error + step list" where
  \<comment> \<open>lines 89 to 101\<close>
  "lifecycle_cmds pkgScripts tbl action =
     (let script = map_get tbl action
      in if truthy script
         then Inr (hook pkgScripts (''pre'' @ action) @ [(action, script)] @
                   hook pkgScripts (''post'' @ action))
         else Inl (InvariantViolation ''Script must exist''))"

definition single_cmd :: "js_map \<Rightarrow> string \<Rightarrow> error + step list" where
  \<comment> \<open>lines 102 to 106\<close>
  "single_cmd tbl action =
     (if map_has tbl action
      then (let script = map_get tbl action
            in if truthy script then Inr [(action, script)]
               else Inl (InvariantViolation ''Script must exist''))
      else Inr [])"

definition build_cmds :: "js_object option \<Rightarrow> js_map \<Rightarrow> string \<Rightarrow> error + step list" where
  \<comment> \<open>lines 86 to 106: the list \<^verbatim>\<open>cmds\<close>, or the invariant's exception\<close>
  "build_cmds pkgScripts tbl action =
     (case pkgScripts of
        None \<Rightarrow> single_cmd tbl action
      | Some ps \<Rightarrow>
          if js_in action ps then lifecycle_cmds ps tbl action else single_cmd tbl action)"

definition custom_shell :: "collaborators \<Rightarrow> string option" where
  \<comment> \<open>\<^verbatim>\<open>if (customShell)\<close>: an unset or empty option selects the default shell\<close>
  "custom_shell c =
     (case script_shell c of
        None \<Rightarrow> None
      | Some s \<Rightarrow> if s \<noteq> [] then Some s else None)"

fun exec_cmds :: "collaborators \<Rightarrow> string \<Rightarrow> string list \<Rightarrow> step list \<Rightarrow> state \<Rightarrow> state \<times> result" where
  \<comment> \<open>the loop of lines 111 to 120; a step that throws ends it\<close>
  "exec_cmds c action args [] st = (st, Fulfilled)"
| "exec_cmds c action args ((stage, cmd) # cmds) st =
     (let cmdWithArgs = (if stage = action then Str (sh_unquoted_args c cmd args) else cmd);
          st' = emit (ExecCommand stage cmdWithArgs (custom_shell c)) st
      in case execCommand c stage cmdWithArgs (custom_shell c) of
           Some e \<Rightarrow> (st', Rejected (ExecFailure e))
         | None \<Rightarrow> exec_cmds c action args cmds st')"

definition suggest :: "collaborators \<Rightarrow> js_map \<Rightarrow> string \<Rightarrow> string option" where
  \<comment> \<open>lines 124 to 131\<close>
  "suggest c tbl action =
     fold (\<lambda>commandName suggestion.
             if leven c commandName action < 2 then Some commandName else suggestion)
          (for_in_keys tbl) None"

definition not_found_msg :: "collaborators \<Rightarrow> js_map \<Rightarrow> string \<Rightarrow> string" where
  \<comment> \<open>lines 133 to 136\<close>
  "not_found_msg c tbl action =
     (let msg = ''Command '' @ JSON_stringify c action @ '' not found.''
      in case suggest c tbl action of
           None \<Rightarrow> msg
         | Some s \<Rightarrow>
             if s \<noteq> [] then msg @ '' Did you mean '' @ JSON_stringify c s @ ''?'' else msg)"

definition runCommand ::
  "collaborators \<Rightarrow> js_object option \<Rightarrow> js_map \<Rightarrow> string \<Rightarrow> string list \<Rightarrow> state \<Rightarrow> state \<times> result" where
  \<comment> \<open>\<open>action\<close> is \<^verbatim>\<open>args.shift()\<close> and \<open>args\<close> what is left of \<^verbatim>\<open>args\<close>\<close>
  "runCommand c pkgScripts tbl action args st =
     (case build_cmds pkgScripts tbl action of
        Inl e \<Rightarrow> (st, Rejected e)
      | Inr cmds \<Rightarrow>
          if cmds \<noteq> [] then
            exec_cmds c action args cmds
              (st\<lparr>process_env := (process_env st)(''YARN_WRAP_OUTPUT'' \<mapsto> ''false'')\<rparr>)
          else if action = ''env'' then (emit (ReportLog (makeEnv_text c)) st, Fulfilled)
          else (st, Rejected (MessageError (not_found_msg c tbl action))))"

section \<open>The entry point (run, lines 141 to 171)\<close>

fun join :: "string \<Rightarrow> string list \<Rightarrow> string" where
  \<comment> \<open>\<^verbatim>\<open>xs.join(sep)\<close>\<close>
  "join sep [] = []"
| "join sep [x] = x"
| "join sep (x # y # ys) = x @ sep @ join sep (y # ys)"

fun split_space :: "string \<Rightarrow> string \<times> string list" where
  \<comment> \<open>\<^verbatim>\<open>answer.split(' ')\<close>, as its first piece (which \<^verbatim>\<open>args.shift()\<close> takes) and the rest\<close>
  "split_space [] = ([], [])"
| "split_space (ch # cs) =
     (case split_space cs of
        (piece, pieces) \<Rightarrow>
          if ch = CHR '' '' then ([], piece # pieces) else (ch # piece, pieces))"

fun printed :: "js_map \<Rightarrow> string list \<Rightarrow> js_map \<Rightarrow> error + js_map" where
  \<comment> \<open>the loop of lines 153 to 157\<close>
  "printed tbl [] printedCommands = Inr printedCommands"
| "printed tbl (pkgCommand # rest) printedCommands =
     (let action = map_get tbl pkgCommand
      in if truthy action then printed tbl rest (map_set pkgCommand action printedCommands)
         else Inl (InvariantViolation ''Action must exists''))"

definition list_commands ::
  "collaborators \<Rightarrow> js_object option \<Rightarrow> tables \<Rightarrow> string option \<Rightarrow> state \<Rightarrow> state \<times> result" where
  \<comment> \<open>lines 143 to 168; \<open>answer\<close> is what the prompt resolves to, \<open>None\<close> when it rejects\<close>
  "list_commands c pkgScripts t answer st =
     (let st1 = emit (ReportError (lang c ''commandNotSpecified'')) st;
          st2 = (if binCommands t \<noteq> []
                 then emit (ReportInfo (lang c ''binCommands'' @ join '', '' (binCommands t))) st1
                 else emit (ReportError (lang c ''noBinAvailable'')) st1)
      in case printed (scripts t) (pkgCommands t) new_Map of
           Inl e \<Rightarrow> (st2, Rejected e)
         | Inr printedCommands \<Rightarrow>
             if pkgCommands t \<noteq> [] then
               (let st3 = emit (ReportInfo (lang c ''possibleCommands'')) st2;
                    st4 = emit (ReportList ''possibleCommands'' (pkgCommands t)
                                  (mapData printedCommands)) st3;
                    st5 = emit (Question (lang c ''commandQuestion'')) st4
                in case answer of
                     Some a \<Rightarrow>
                       (case split_space a of
                          (action, rest) \<Rightarrow> runCommand c pkgScripts (scripts t) action rest st5)
                   | None \<Rightarrow> (emit (ReportError (lang c ''commandNotSpecified'')) st5, Fulfilled))
             else (emit (ReportError (lang c ''noScriptsAvailable'')) st2, Fulfilled))"

definition run ::
  "collaborators \<Rightarrow> string list \<Rightarrow> js_object option \<Rightarrow> string option \<Rightarrow> string list \<Rightarrow> state \<Rightarrow> state \<times> result" where
  \<comment> \<open>\<open>binFolders\<close> is the Set of lines 38 to 56 in its iteration order\<close>
  "run c binFolders pkgScripts answer args st =
     (let t = build_tables c binFolders pkgScripts
      in case args of
           [] \<Rightarrow> list_commands c pkgScripts t answer st
         | action # rest \<Rightarrow> runCommand c pkgScripts (scripts t) action rest st)"

section \<open>A concrete set of collaborators\<close>

text \<open>
  One instance of the collaborators, to run the model on concrete inputs: paths joined with
  a slash; quoting as for a POSIX shell (a non-empty word of letters, digits and
  \<^verbatim>\<open>_@%+=:,./-\<close> is left as it is, any other is put in single quotes); the template
  giving the command text followed, when there are trailing arguments, by a space and the
  quoted arguments separated by spaces; a string in double quotes for \<^verbatim>\<open>JSON.stringify\<close>;
  the edit distance of the glossary for \<^verbatim>\<open>leven\<close>; every step completing; and two
  executable directories.
\<close>

fun edit_distance :: "string \<Rightarrow> string \<Rightarrow> nat" where
  "edit_distance [] ys = length ys"
| "edit_distance (x # xs) [] = Suc (length xs)"
| "edit_distance (x # xs) (y # ys) =
     (if x = y then edit_distance xs ys
      else Suc (min (edit_distance xs ys)
                    (min (edit_distance xs (y # ys)) (edit_distance (x # xs) ys))))"

definition safe_chars :: string where
  "safe_chars = ''abcdefghijklmnopqrstuvwxyzABCDEFGHIJKLMNOPQRSTUVWXYZ0123456789_@%+=:,./-''"

definition sh_quote :: "string \<Rightarrow> string" where
  "sh_quote s =
     (if s \<noteq> [] \<and> list_all (\<lambda>ch. ch \<in> set safe_chars) s then s
      else [CHR 0x27] @
           concat (map (\<lambda>ch. if ch = CHR 0x27 then [CHR 0x27, CHR 0x5C, CHR 0x27, CHR 0x27]
                               else [ch]) s) @
           [CHR 0x27])"

definition plain_sh :: "js_value \<Rightarrow> string list \<Rightarrow> string" where
  "plain_sh cmd args =
     (case cmd of Str s \<Rightarrow> s | _ \<Rightarrow> []) @
     (if args = [] then [] else '' '' @ join '' '' (map sh_quote args))"

definition two_bins :: "string \<Rightarrow> string list option" where
  "two_bins d =
     (if d = ''/a/.bin'' then Some [''lint'']
      else if d = ''/b/.bin'' then Some [''lint'', ''tsc'']
      else None)"

definition sample :: collaborators where
  "sample =
     \<lparr>path_join = (\<lambda>d n. d @ ''/'' @ n),
      quoteForShell = sh_quote,
      sh_unquoted_args = plain_sh,
      JSON_stringify = (\<lambda>s. CHR 0x22 # s @ [CHR 0x22]),
      leven = edit_distance,
      execCommand = (\<lambda>stage cmd shell. None),
      makeEnv_text = ''{}'',
      script_shell = None,
      lang = (\<lambda>key. key),
      readdir = two_bins\<rparr>"

definition st0 :: state where
  "st0 = \<lparr>process_env = Map.empty, trace = []\<rparr>"

definition manifest :: "(string \<times> string) list \<Rightarrow> js_object" where
  \<comment> \<open>a scripts object with the given scripts and no inherited member\<close>
  "manifest kvs = \<lparr>own = kvs, inherited = []\<rparr>"

section \<open>Notions used to state the properties\<close>

definition entry :: "tables \<Rightarrow> string \<Rightarrow> js_value option" where
  \<comment> \<open>the table as a mapping from names to commands\<close>
  "entry t = map_of (mapData (scripts t))"

definition listed :: "collaborators \<Rightarrow> string \<Rightarrow> string \<Rightarrow> bool" where
  \<comment> \<open>the directory exists and has an entry of that name\<close>
  "listed c name binFolder =
     (case readdir c binFolder of None \<Rightarrow> False | Some names \<Rightarrow> name \<in> set names)"

definition bin_entry :: "collaborators \<Rightarrow> string list \<Rightarrow> string \<Rightarrow> js_value option" where
  \<comment> \<open>the quoted path in the last of the directories that list the name\<close>
  "bin_entry c binFolders name =
     (if filter (listed c name) binFolders = [] then None
      else Some (Str (quoteForShell c
                   (path_join c (last (filter (listed c name) binFolders)) name))))"

definition table_ok :: "tables \<Rightarrow> bool" where
  "table_ok t = (distinct (map fst (mapData (scripts t))) \<and> ownProps (scripts t) = [])"

definition in_manifest :: "js_object option \<Rightarrow> string \<Rightarrow> bool" where
  \<comment> \<open>\<^verbatim>\<open>pkgScripts && action in pkgScripts\<close>\<close>
  "in_manifest pkgScripts action =
     (case pkgScripts of None \<Rightarrow> False | Some ps \<Rightarrow> js_in action ps)"

definition hook_events :: "collaborators \<Rightarrow> js_object \<Rightarrow> string \<Rightarrow> event list" where
  \<comment> \<open>a hook runs with its own command text, when the scripts object has it\<close>
  "hook_events c ps name =
     (if js_in name ps then [ExecCommand name (js_get ps name) (custom_shell c)] else [])"

definition manifest_key :: "js_object option \<Rightarrow> string \<Rightarrow> bool" where
  \<comment> \<open>the name is a key of the manifest's scripts: one of \<^verbatim>\<open>Object.keys(pkgScripts)\<close>\<close>
  "manifest_key pkgScripts name =
     (case pkgScripts of None \<Rightarrow> False | Some ps \<Rightarrow> name \<in> set (Object_keys ps))"

fun is_exec :: "event \<Rightarrow> bool" where
  "is_exec (ExecCommand stage cmd shell) = True"
| "is_exec e = False"

section \<open>Facts about Maps, Sets and the table\<close>

lemma map_of_upsert: "map_of (upsert k v kvs) = (map_of kvs)(k \<mapsto> v)"
  by (induction kvs) auto

lemma keys_upsert: "fst ` set (upsert k v kvs) = insert k (fst ` set kvs)"
  by (simp add: dom_map_of_conv_image_fst [symmetric] map_of_upsert)

lemma distinct_upsert: "distinct (map fst kvs) \<Longrightarrow> distinct (map fst (upsert k v kvs))"
  by (induction kvs) (auto simp: keys_upsert)

lemma set_set_add: "set (set_add x xs) = insert x (set xs)"
  by (auto simp: set_add_def)

lemma own_key_iff: "n \<in> fst ` set kvs \<longleftrightarrow> map_of kvs n \<noteq> None"
  by (simp add: map_of_eq_None_iff)

lemma set_Object_keys: "set (Object_keys ps) = fst ` set (own ps)"
  by (simp add: Object_keys_def)

lemma foldl_invariant:
  "P a \<Longrightarrow> (\<And>b x. P b \<Longrightarrow> P (f b x)) \<Longrightarrow> P (foldl f a xs)"
  by (induction xs arbitrary: a) auto

subsection \<open>The table as a mapping\<close>

lemma entry_add_bin:
  "entry (add_bin c d t n) = (entry t)(n \<mapsto> Str (quoteForShell c (path_join c d n)))"
  by (simp add: entry_def add_bin_def map_set_def map_of_upsert)

lemma entry_add_bins:
  "entry (foldl (add_bin c d) t ns) n =
     (if n \<in> set ns then Some (Str (quoteForShell c (path_join c d n))) else entry t n)"
  by (induction ns arbitrary: t rule: rev_induct) (auto simp: entry_add_bin)

lemma entry_scan_folder:
  "entry (scan_folder c t d) n =
     (if listed c n d then Some (Str (quoteForShell c (path_join c d n))) else entry t n)"
  by (simp add: scan_folder_def listed_def entry_add_bins split: option.split)

lemma entry_scan_folders:
  "entry (foldl (scan_folder c) t ds) n =
     (case bin_entry c ds n of Some v \<Rightarrow> Some v | None \<Rightarrow> entry t n)"
proof (induction ds rule: rev_induct)
  case Nil
  show ?case by (simp add: bin_entry_def)
next
  case (snoc d ds)
  show ?case
  proof (cases "listed c n d")
    case True
    then show ?thesis
      by (simp add: entry_scan_folder bin_entry_def)
  next
    case False
    then show ?thesis using snoc.IH
      by (simp add: entry_scan_folder bin_entry_def)
  qed
qed

lemma entry_add_pkg:
  "entry (add_pkg ps t n) = (entry t)(n \<mapsto> js_or (js_get ps n) (Str []))"
  by (simp add: entry_def add_pkg_def map_set_def map_of_upsert)

lemma entry_add_pkgs:
  "entry (foldl (add_pkg ps) t ks) n =
     (if n \<in> set ks then Some (js_or (js_get ps n) (Str [])) else entry t n)"
  by (induction ks arbitrary: t rule: rev_induct) (auto simp: entry_add_pkg)

lemma own_script_text:
  "map_of (own ps) n = Some body \<Longrightarrow> js_or (js_get ps n) (Str []) = Str body"
  by (simp add: js_or_def js_get_def)

lemma entry_empty: "entry empty_tables n = None"
  by (simp add: entry_def empty_tables_def new_Map_def)

lemma entry_build_tables:
  "entry (build_tables c ds pkgScripts) n =
     (case pkgScripts of
        None \<Rightarrow> bin_entry c ds n
      | Some ps \<Rightarrow>
          (case map_of (own ps) n of
             Some body \<Rightarrow> Some (Str body)
           | None \<Rightarrow> bin_entry c ds n))"
proof (cases pkgScripts)
  case None
  then show ?thesis
    by (simp add: build_tables_def entry_scan_folders entry_empty split: option.split)
next
  case (Some ps)
  show ?thesis
  proof (cases "map_of (own ps) n")
    case None
    then have "n \<notin> fst ` set (own ps)" by (simp add: map_of_eq_None_iff)
    with Some None show ?thesis
      by (simp add: build_tables_def entry_add_pkgs set_Object_keys entry_scan_folders
          entry_empty split: option.split)
  next
    case (Some body)
    then have "n \<in> fst ` set (own ps)" by (simp add: own_key_iff)
    with \<open>pkgScripts = Some ps\<close> Some show ?thesis
      by (simp add: build_tables_def entry_add_pkgs set_Object_keys own_script_text)
  qed
qed

lemma map_has_entry: "map_has (scripts t) n \<longleftrightarrow> entry t n \<noteq> None"
  by (simp add: map_has_def entry_def map_of_eq_None_iff)

lemma map_get_entry:
  "map_get (scripts t) n = (case entry t n of Some v \<Rightarrow> v | None \<Rightarrow> Undefined)"
  by (simp add: map_get_def entry_def)

lemma bin_entry_None_iff: "bin_entry c ds n = None \<longleftrightarrow> (\<forall>d\<in>set ds. \<not> listed c n d)"
  by (simp add: bin_entry_def filter_empty_conv)

lemma bin_entry_perm:
  assumes perm: "mset ds' = mset ds"
    and one: "\<forall>d\<in>set ds. \<forall>d'\<in>set ds. listed c n d \<and> listed c n d' \<longrightarrow> d = d'"
  shows "bin_entry c ds' n = bin_entry c ds n"
proof -
  let ?f = "filter (listed c n) ds" and ?f' = "filter (listed c n) ds'"
  have m: "mset ?f' = mset ?f" using perm by (metis mset_filter)
  then have s: "set ?f' = set ?f" by (rule mset_eq_setD)
  show ?thesis
  proof (cases "?f = []")
    case True
    with m have "?f' = []" by (metis mset_zero_iff)
    with True show ?thesis by (simp add: bin_entry_def)
  next
    case False
    with m have ne: "?f' \<noteq> []" by (metis mset_zero_iff)
    have "last ?f \<in> set ?f" using False by (rule last_in_set)
    moreover have "last ?f' \<in> set ?f" using ne s last_in_set by blast
    ultimately have "last ?f' = last ?f" using one by auto
    with False ne show ?thesis by (simp add: bin_entry_def)
  qed
qed

subsection \<open>Unique keys, and no enumerable property on the Map\<close>

lemma table_ok_add_bin: "table_ok t \<Longrightarrow> table_ok (add_bin c d t n)"
  by (simp add: table_ok_def add_bin_def map_set_def distinct_upsert)

lemma table_ok_add_pkg: "table_ok t \<Longrightarrow> table_ok (add_pkg ps t n)"
  by (simp add: table_ok_def add_pkg_def map_set_def distinct_upsert)

lemma table_ok_scan_folder: "table_ok t \<Longrightarrow> table_ok (scan_folder c t d)"
  by (auto simp: scan_folder_def split: option.split intro: foldl_invariant table_ok_add_bin)

lemma table_ok_build_tables: "table_ok (build_tables c ds pkgScripts)"
proof -
  have "table_ok empty_tables"
    by (simp add: table_ok_def empty_tables_def new_Map_def)
  then have "table_ok (foldl (scan_folder c) empty_tables ds)"
    by (rule foldl_invariant) (rule table_ok_scan_folder)
  then show ?thesis
    by (auto simp: build_tables_def Let_def split: option.split
        intro: foldl_invariant table_ok_add_pkg)
qed

lemma suggest_build_tables: "suggest c (scripts (build_tables c' ds pkgScripts)) action = None"
  using table_ok_build_tables [of c' ds pkgScripts]
  by (simp add: suggest_def for_in_keys_def table_ok_def)

subsection \<open>The two Sets of names\<close>

lemma binCommands_add_bins:
  "set (binCommands (foldl (add_bin c d) t ns)) = set (binCommands t) \<union> set ns"
  by (induction ns arbitrary: t rule: rev_induct) (auto simp: add_bin_def set_set_add)

lemma binCommands_scan_folder:
  "set (binCommands (scan_folder c t d)) = set (binCommands t) \<union> {n. listed c n d}"
  by (auto simp: scan_folder_def listed_def binCommands_add_bins split: option.split)

lemma binCommands_scan_folders:
  "set (binCommands (foldl (scan_folder c) t ds)) =
     set (binCommands t) \<union> {n. \<exists>d\<in>set ds. listed c n d}"
  by (induction ds arbitrary: t rule: rev_induct) (auto simp: binCommands_scan_folder)

lemma binCommands_add_pkgs: "binCommands (foldl (add_pkg ps) t ks) = binCommands t"
  by (induction ks arbitrary: t rule: rev_induct) (auto simp: add_pkg_def)

lemma binCommands_build_tables:
  "set (binCommands (build_tables c ds pkgScripts)) = {n. \<exists>d\<in>set ds. listed c n d}"
  by (simp add: build_tables_def Let_def binCommands_add_pkgs binCommands_scan_folders
      empty_tables_def split: option.split)

lemma pkgCommands_add_bins: "pkgCommands (foldl (add_bin c d) t ns) = pkgCommands t"
  by (induction ns arbitrary: t rule: rev_induct) (auto simp: add_bin_def)

lemma pkgCommands_scan_folders: "pkgCommands (foldl (scan_folder c) t ds) = pkgCommands t"
  by (induction ds arbitrary: t rule: rev_induct)
     (auto simp: scan_folder_def pkgCommands_add_bins split: option.split)

lemma pkgCommands_add_pkgs:
  "set (pkgCommands (foldl (add_pkg ps) t ks)) = set (pkgCommands t) \<union> set ks"
  by (induction ks arbitrary: t rule: rev_induct) (auto simp: add_pkg_def set_set_add)

lemma pkgCommands_build_tables:
  "set (pkgCommands (build_tables c ds pkgScripts)) =
     (case pkgScripts of None \<Rightarrow> {} | Some ps \<Rightarrow> fst ` set (own ps))"
  by (simp add: build_tables_def Let_def pkgCommands_add_pkgs pkgCommands_scan_folders
      empty_tables_def set_Object_keys split: option.split)

section \<open>Facts about resolving and running\<close>

lemma build_cmds_error:
  "build_cmds pkgScripts tbl action = Inl e \<Longrightarrow> e = InvariantViolation ''Script must exist''"
  by (auto simp: build_cmds_def lifecycle_cmds_def single_cmd_def Let_def
      split: option.splits if_splits)

lemma exec_cmds_env: "process_env (fst (exec_cmds c action args cmds st)) = process_env st"
  by (induction cmds arbitrary: st) (auto simp: emit_def Let_def split: option.split)

lemma exec_cmds_result:
  "snd (exec_cmds c action args cmds st) = Rejected e \<Longrightarrow> \<exists>x. e = ExecFailure x"
  by (induction cmds arbitrary: st) (auto simp: Let_def split: option.splits)

lemma exec_cmds_append:
  "exec_cmds c action args (xs @ ys) st =
     (case exec_cmds c action args xs st of
        (st', Fulfilled) \<Rightarrow> exec_cmds c action args ys st'
      | (st', Rejected e) \<Rightarrow> (st', Rejected e))"
  by (induction xs arbitrary: st) (auto simp: Let_def split: option.split)

lemma exec_hook:
  assumes "\<forall>stage cmd. execCommand c stage cmd (custom_shell c) = None"
    and "n \<noteq> action"
  shows "exec_cmds c action args (hook ps n) st =
           (st\<lparr>trace := trace st @ hook_events c ps n\<rparr>, Fulfilled)"
  using assms by (simp add: hook_def hook_events_def emit_def)

lemma manifest_action_cmds:
  assumes "map_of (own ps) action = Some body" and "body \<noteq> []"
  shows "build_cmds (Some ps) (scripts (build_tables c ds (Some ps))) action =
           Inr (hook ps (''pre'' @ action) @ [(action, Str body)] @ hook ps (''post'' @ action))"
proof -
  from assms(1) have "js_in action ps" by (force simp: js_in_def dest: map_of_SomeD)
  moreover have "map_get (scripts (build_tables c ds (Some ps))) action = Str body"
    using assms(1) by (simp add: map_get_entry entry_build_tables)
  ultimately show ?thesis using assms(2)
    by (simp add: build_cmds_def lifecycle_cmds_def)
qed

lemma fold_suggest_Some:
  "fold (\<lambda>commandName suggestion.
           if leven c commandName action < 2 then Some commandName else suggestion) xs acc
     = Some s \<Longrightarrow> acc = Some s \<or> s \<in> set xs"
  by (induction xs arbitrary: acc) (auto split: if_splits)

lemma suggest_Some: "suggest c tbl action = Some s \<Longrightarrow> s \<in> set (for_in_keys tbl)"
  unfolding suggest_def by (drule fold_suggest_Some) simp

lemma not_found_msg_eq:
  assumes "[] \<notin> set (for_in_keys tbl)"
  shows "not_found_msg c tbl action =
     ''Command '' @ JSON_stringify c action @ '' not found.'' @
     (case suggest c tbl action of
        None \<Rightarrow> []
      | Some s \<Rightarrow> '' Did you mean '' @ JSON_stringify c s @ ''?'')"
proof (cases "suggest c tbl action")
  case None
  then show ?thesis by (simp add: not_found_msg_def)
next
  case (Some s)
  with assms suggest_Some [OF Some] have "s \<noteq> []" by auto
  with Some show ?thesis by (simp add: not_found_msg_def)
qed

lemma in_manifest_own:
  assumes "\<forall>ps. pkgScripts = Some ps \<longrightarrow> inherited ps = []"
  shows "in_manifest pkgScripts action \<longleftrightarrow> manifest_key pkgScripts action"
  using assms
  by (cases pkgScripts) (simp_all add: in_manifest_def manifest_key_def js_in_def Object_keys_def)

lemma build_cmds_Nil_iff:
  "build_cmds pkgScripts tbl action = Inr [] \<longleftrightarrow>
     \<not> in_manifest pkgScripts action \<and> \<not> map_has tbl action"
  by (auto simp: build_cmds_def single_cmd_def lifecycle_cmds_def in_manifest_def Let_def
      split: option.splits if_splits)

lemma exec_cmds_trace:
  "\<exists>evs. trace (fst (exec_cmds c action args cmds st)) = trace st @ evs \<and> list_all is_exec evs"
proof (induction cmds arbitrary: st)
  case Nil
  show ?case by simp
next
  case (Cons step cmds)
  obtain stage cmd where step: "step = (stage, cmd)" by (cases step)
  let ?ev = "ExecCommand stage
               (if stage = action then Str (sh_unquoted_args c cmd args) else cmd) (custom_shell c)"
  show ?case
  proof (cases "execCommand c stage
                  (if stage = action then Str (sh_unquoted_args c cmd args) else cmd)
                  (custom_shell c)")
    case None
    from Cons.IH [of "emit ?ev st"] obtain evs where
      "trace (fst (exec_cmds c action args cmds (emit ?ev st))) = trace (emit ?ev st) @ evs"
      and "list_all is_exec evs" by blast
    with None step have
      "trace (fst (exec_cmds c action args (step # cmds) st)) = trace st @ (?ev # evs) \<and>
       list_all is_exec (?ev # evs)"
      by (simp add: emit_def Let_def)
    then show ?thesis by blast
  next
    case (Some e)
    with step have
      "trace (fst (exec_cmds c action args (step # cmds) st)) = trace st @ [?ev] \<and>
       list_all is_exec [?ev]"
      by (simp add: emit_def Let_def)
    then show ?thesis by blast
  qed
qed

lemma map_has_build_tables:
  "map_has (scripts (build_tables c binFolders pkgScripts)) name \<longleftrightarrow>
     manifest_key pkgScripts name \<or> (\<exists>d\<in>set binFolders. listed c name d)"
proof -
  have "bin_entry c binFolders name \<noteq> None \<longleftrightarrow> (\<exists>d\<in>set binFolders. listed c name d)"
    by (simp add: bin_entry_None_iff)
  then show ?thesis
    by (cases pkgScripts)
       (auto simp: map_has_entry entry_build_tables manifest_key_def set_Object_keys own_key_iff
          split: option.splits simp del: not_None_eq)
qed

lemma runCommand_not_found_iff:
  "(\<exists>m. snd (runCommand c pkgScripts tbl action args st) = Rejected (MessageError m)) \<longleftrightarrow>
     \<not> in_manifest pkgScripts action \<and> \<not> map_has tbl action \<and> action \<noteq> ''env''"
proof (cases "build_cmds pkgScripts tbl action")
  case (Inl e)
  with build_cmds_error [OF Inl] show ?thesis
    by (auto simp: runCommand_def build_cmds_def single_cmd_def in_manifest_def
        split: option.splits if_splits)
next
  case (Inr cmds)
  show ?thesis
  proof (cases "cmds = []")
    case True
    with Inr show ?thesis
      by (auto simp: runCommand_def build_cmds_def single_cmd_def lifecycle_cmds_def Let_def
          in_manifest_def split: option.splits if_splits)
  next
    case False
    have "\<And>st' m. snd (exec_cmds c action args cmds st') \<noteq> Rejected (MessageError m)"
      using exec_cmds_result by blast
    with False Inr show ?thesis
      by (auto simp: runCommand_def build_cmds_def single_cmd_def lifecycle_cmds_def Let_def
          in_manifest_def split: option.splits if_splits)
  qed
qed

lemma runCommand_not_found_state:
  assumes "runCommand c pkgScripts tbl action args st = (st', Rejected (MessageError m))"
  shows "st' = st \<and> m = not_found_msg c tbl action"
proof (cases "build_cmds pkgScripts tbl action")
  case (Inl e)
  with assms build_cmds_error [OF Inl] show ?thesis by (simp add: runCommand_def)
next
  case (Inr cmds)
  show ?thesis
  proof (cases "cmds = []")
    case True
    with Inr assms show ?thesis
      by (auto simp: runCommand_def split: if_splits)
  next
    case False
    let ?st = "st\<lparr>process_env := (process_env st)(''YARN_WRAP_OUTPUT'' \<mapsto> ''false'')\<rparr>"
    from False Inr assms have "snd (exec_cmds c action args cmds ?st) = Rejected (MessageError m)"
      by (simp add: runCommand_def)
    then have False using exec_cmds_result by blast
    then show ?thesis ..
  qed
qed

section \<open>The claims\<close>

subsection \<open>C1: the plan of a manifest-declared action\<close>

text \<open>
  Claim C1. For every manifest-declared action the resolved plan is the \<open>pre\<close> hook when
  the manifest has it, the main step, the \<open>post\<close> hook when the manifest has it, in that
  order, and only the main step receives the trailing arguments.

  The code does not resolve a plan for every manifest-declared action. With the scripts
  \<open>build\<close> (empty body), \<open>prebuild\<close> and \<open>postbuild\<close>, the action \<open>build\<close> and
  the argument \<open>--fast\<close>, line 95 (\<^verbatim>\<open>invariant(script, 'Script must exist')\<close>) throws, since
  the empty string that line 77 stored is falsy: nothing runs, not even \<open>prebuild\<close>.
\<close>

theorem empty_body_action_has_no_plan:
  "run sample []
     (Some (manifest [(''build'', []), (''prebuild'', ''clean''), (''postbuild'', ''notify'')]))
     None [''build'', ''--fast''] st0 =
   (st0, Rejected (InvariantViolation ''Script must exist''))"
  by (simp add: run_def runCommand_def build_cmds_def lifecycle_cmds_def js_in_def manifest_def
      map_get_entry entry_build_tables)

text \<open>
  Extra X1. What does hold: when the body of the action is not empty and every step
  completes, \<open>run\<close> sets the flag and starts the \<open>pre\<close> hook (if the scripts object has
  it) with its own text, then the action with the trailing arguments appended by the
  template, then the \<open>post\<close> hook (if the scripts object has it) with its own text.
\<close>

theorem manifest_action_run:
  assumes "map_of (own ps) action = Some body" and "body \<noteq> []"
    and ok: "\<forall>stage cmd. execCommand c stage cmd (custom_shell c) = None"
  shows "run c binFolders (Some ps) answer (action # args) st =
           (st\<lparr>process_env := (process_env st)(''YARN_WRAP_OUTPUT'' \<mapsto> ''false''),
               trace := trace st @ hook_events c ps (''pre'' @ action) @
                 [ExecCommand action (Str (sh_unquoted_args c (Str body) args)) (custom_shell c)] @
                 hook_events c ps (''post'' @ action)\<rparr>,
            Fulfilled)"
proof -
  define pre where "pre = ''pre'' @ action"
  define post where "post = ''post'' @ action"
  let ?st1 = "st\<lparr>process_env := (process_env st)(''YARN_WRAP_OUTPUT'' \<mapsto> ''false'')\<rparr>"
  let ?st2 = "?st1\<lparr>trace := trace ?st1 @ hook_events c ps pre\<rparr>"
  let ?st3 = "emit (ExecCommand action (Str (sh_unquoted_args c (Str body) args))
                      (custom_shell c)) ?st2"
  have names: "pre \<noteq> action" "post \<noteq> action"
    unfolding pre_def post_def by simp_all
  have cmds: "build_cmds (Some ps) (scripts (build_tables c binFolders (Some ps))) action =
                Inr (hook ps pre @ [(action, Str body)] @ hook ps post)"
    unfolding pre_def post_def by (rule manifest_action_cmds [OF assms(1,2)])
  have e1: "exec_cmds c action args (hook ps pre) ?st1 = (?st2, Fulfilled)"
    by (rule exec_hook [OF ok names(1)])
  have e2: "exec_cmds c action args [(action, Str body)] ?st2 = (?st3, Fulfilled)"
    using ok by simp
  have e3: "exec_cmds c action args (hook ps post) ?st3 =
              (?st3\<lparr>trace := trace ?st3 @ hook_events c ps post\<rparr>, Fulfilled)"
    by (rule exec_hook [OF ok names(2)])
  have "exec_cmds c action args (hook ps pre @ [(action, Str body)] @ hook ps post) ?st1 =
          (?st3\<lparr>trace := trace ?st3 @ hook_events c ps post\<rparr>, Fulfilled)"
    by (simp only: exec_cmds_append e1 e2 e3 prod.case result.case)
  moreover have "hook ps pre @ [(action, Str body)] @ hook ps post \<noteq> []" by simp
  ultimately have "run c binFolders (Some ps) answer (action # args) st =
       (?st3\<lparr>trace := trace ?st3 @ hook_events c ps post\<rparr>, Fulfilled)"
    by (simp add: run_def runCommand_def cmds)
  then show ?thesis by (simp add: emit_def pre_def post_def)
qed

text \<open>The example of the specification: \<open>build\<close> with \<open>prebuild\<close>, \<open>postbuild\<close> and \<open>--fast\<close>.\<close>

theorem manifest_action_run_witness:
  "run sample []
     (Some (manifest [(''build'', ''compile''), (''prebuild'', ''clean''),
                      (''postbuild'', ''notify'')]))
     None [''build'', ''--fast''] st0 =
   (\<lparr>process_env = [''YARN_WRAP_OUTPUT'' \<mapsto> ''false''],
     trace = [ExecCommand ''prebuild'' (Str ''clean'') None,
              ExecCommand ''build'' (Str ''compile --fast'') None,
              ExecCommand ''postbuild'' (Str ''notify'') None]\<rparr>, Fulfilled)"
proof -
  let ?ps = "manifest [(''build'', ''compile''), (''prebuild'', ''clean''),
                       (''postbuild'', ''notify'')]"
  have a: "map_of (own ?ps) ''build'' = Some ''compile''" by (simp add: manifest_def)
  have b: "''compile'' \<noteq> []" by simp
  have ok: "\<forall>stage cmd. execCommand sample stage cmd (custom_shell sample) = None"
    by (simp add: sample_def)
  have q: "sh_quote ''--fast'' = ''--fast''" by code_simp
  from manifest_action_run [OF a b ok, of "[]" None "[''--fast'']" st0]
  show ?thesis
    by (simp add: hook_events_def st0_def custom_shell_def js_in_def js_get_def manifest_def)
       (simp add: sample_def plain_sh_def q)
qed

subsection \<open>C2: unique keys, and the manifest wins\<close>

text \<open>
  Claim C2. The keys of the script table are unique, and a name that is both an entry of
  an existing executable directory and a manifest script is in the table with the
  manifest's command text.
\<close>

theorem table_keys_unique_manifest_wins:
  "distinct (map fst (mapData (scripts (build_tables c binFolders pkgScripts)))) \<and>
   (\<forall>ps name body binFolder.
      pkgScripts = Some ps \<and> map_of (own ps) name = Some body \<and>
      binFolder \<in> set binFolders \<and> listed c name binFolder \<longrightarrow>
      map_has (scripts (build_tables c binFolders pkgScripts)) name \<and>
      map_get (scripts (build_tables c binFolders pkgScripts)) name = Str body)"
  using table_ok_build_tables [of c binFolders pkgScripts]
  by (auto simp: table_ok_def map_get_entry map_has_entry entry_build_tables)

theorem table_keys_unique_manifest_wins_witness:
  "listed sample ''lint'' ''/a/.bin'' \<and>
   distinct (map fst (mapData (scripts
      (build_tables sample [''/a/.bin'', ''/b/.bin''] (Some (manifest [(''lint'', ''eslint'')])))))) \<and>
   map_get (scripts
      (build_tables sample [''/a/.bin'', ''/b/.bin''] (Some (manifest [(''lint'', ''eslint'')]))))
      ''lint'' = Str ''eslint''"
proof -
  have l: "listed sample ''lint'' ''/a/.bin''"
    by (simp add: listed_def sample_def two_bins_def)
  have m: "map_of (own (manifest [(''lint'', ''eslint'')])) ''lint'' = Some ''eslint''"
    by (simp add: manifest_def)
  have f: "''/a/.bin'' \<in> set [''/a/.bin'', ''/b/.bin'']" by simp
  from table_keys_unique_manifest_wins
         [of sample "[''/a/.bin'', ''/b/.bin'']" "Some (manifest [(''lint'', ''eslint'')])"] l m f
  show ?thesis by blast
qed

subsection \<open>C3: the order of the executable directories\<close>

text \<open>
  Claim C3, as stated: permuting the iteration order of the executable directories never
  changes the table, also when distinct directories have entries of the same name. It
  fails: \<open>/a/.bin\<close> and \<open>/b/.bin\<close> both have \<open>lint\<close>, no manifest script is named
  \<open>lint\<close>, and the table maps \<open>lint\<close> to the path in whichever directory comes last.
\<close>

theorem folder_order_changes_shared_name:
  "mset [''/b/.bin'', ''/a/.bin''] = mset [''/a/.bin'', ''/b/.bin''] \<and>
   map_get (scripts (build_tables sample [''/a/.bin'', ''/b/.bin''] None)) ''lint'' =
     Str ''/b/.bin/lint'' \<and>
   map_get (scripts (build_tables sample [''/b/.bin'', ''/a/.bin''] None)) ''lint'' =
     Str ''/a/.bin/lint''"
  by code_simp

text \<open>
  Claim C3, amended. Permuting the iteration order of the executable directories never
  changes which names the table has, and never changes the command of a name that is a
  manifest script or that no two distinct directories both list; a name that directories
  list and that the manifest does not declare maps to the quoted path in the directory
  iterated last among those that list it.
\<close>

theorem table_order_independent_without_clash:
  assumes "mset binFolders' = mset binFolders"
  shows "map_has (scripts (build_tables c binFolders' pkgScripts)) name =
           map_has (scripts (build_tables c binFolders pkgScripts)) name \<and>
         ((\<exists>ps body. pkgScripts = Some ps \<and> map_of (own ps) name = Some body) \<or>
          (\<forall>d\<in>set binFolders. \<forall>d'\<in>set binFolders.
             listed c name d \<and> listed c name d' \<longrightarrow> d = d') \<longrightarrow>
          map_get (scripts (build_tables c binFolders' pkgScripts)) name =
            map_get (scripts (build_tables c binFolders pkgScripts)) name) \<and>
         (\<not> manifest_key pkgScripts name \<and> filter (listed c name) binFolders' \<noteq> [] \<longrightarrow>
          map_get (scripts (build_tables c binFolders' pkgScripts)) name =
            Str (quoteForShell c
                  (path_join c (last (filter (listed c name) binFolders')) name)))"
proof -
  have s: "set binFolders' = set binFolders" using assms by (rule mset_eq_setD)
  have none: "bin_entry c binFolders' name = None \<longleftrightarrow> bin_entry c binFolders name = None"
    by (simp add: bin_entry_None_iff s)
  have has: "map_has (scripts (build_tables c binFolders' pkgScripts)) name =
           map_has (scripts (build_tables c binFolders pkgScripts)) name"
    using none
    by (simp add: map_has_entry entry_build_tables split: option.split del: not_None_eq)
  have get: "map_get (scripts (build_tables c binFolders' pkgScripts)) name =
            map_get (scripts (build_tables c binFolders pkgScripts)) name"
    if "(\<exists>ps body. pkgScripts = Some ps \<and> map_of (own ps) name = Some body) \<or>
          (\<forall>d\<in>set binFolders. \<forall>d'\<in>set binFolders.
             listed c name d \<and> listed c name d' \<longrightarrow> d = d')"
    using that
  proof
    assume "\<exists>ps body. pkgScripts = Some ps \<and> map_of (own ps) name = Some body"
    then show ?thesis by (auto simp: map_get_entry entry_build_tables)
  next
    assume "\<forall>d\<in>set binFolders. \<forall>d'\<in>set binFolders.
             listed c name d \<and> listed c name d' \<longrightarrow> d = d'"
    with assms have "bin_entry c binFolders' name = bin_entry c binFolders name"
      by (rule bin_entry_perm)
    then show ?thesis by (simp add: map_get_entry entry_build_tables split: option.split)
  qed
  have last: "map_get (scripts (build_tables c binFolders' pkgScripts)) name =
            Str (quoteForShell c
                  (path_join c (last (filter (listed c name) binFolders')) name))"
    if "\<not> manifest_key pkgScripts name" and "filter (listed c name) binFolders' \<noteq> []"
  proof -
    from that(1) have "entry (build_tables c binFolders' pkgScripts) name =
                         bin_entry c binFolders' name"
      by (cases pkgScripts)
         (auto simp: entry_build_tables manifest_key_def set_Object_keys own_key_iff
            split: option.splits)
    with that(2) show ?thesis by (simp add: map_get_entry bin_entry_def)
  qed
  from has get last show ?thesis by blast
qed

theorem table_order_independent_without_clash_witness:
  "map_get (scripts (build_tables sample [''/b/.bin'', ''/a/.bin''] None)) ''tsc'' =
     map_get (scripts (build_tables sample [''/a/.bin'', ''/b/.bin''] None)) ''tsc'' \<and>
   map_has (scripts (build_tables sample [''/a/.bin'', ''/b/.bin''] None)) ''tsc'' \<and>
   filter (listed sample ''lint'') [''/b/.bin'', ''/a/.bin''] = [''/b/.bin'', ''/a/.bin''] \<and>
   map_get (scripts (build_tables sample [''/b/.bin'', ''/a/.bin''] None)) ''lint'' =
     Str ''/a/.bin/lint''"
proof -
  have p: "mset [''/b/.bin'', ''/a/.bin''] = mset [''/a/.bin'', ''/b/.bin'']" by simp
  have one: "\<forall>d\<in>set [''/a/.bin'', ''/b/.bin'']. \<forall>d'\<in>set [''/a/.bin'', ''/b/.bin''].
               listed sample ''tsc'' d \<and> listed sample ''tsc'' d' \<longrightarrow> d = d'"
    by (simp add: listed_def sample_def two_bins_def)
  have h: "map_has (scripts (build_tables sample [''/a/.bin'', ''/b/.bin''] None)) ''tsc''"
    by code_simp
  have k: "\<not> manifest_key None ''lint''" by (simp add: manifest_key_def)
  have f: "filter (listed sample ''lint'') [''/b/.bin'', ''/a/.bin''] =
             [''/b/.bin'', ''/a/.bin'']"
    by (simp add: listed_def sample_def two_bins_def)
  have q: "quoteForShell sample (path_join sample ''/a/.bin'' ''lint'') = ''/a/.bin/lint''"
    by code_simp
  note t = table_order_independent_without_clash [OF p, of sample None]
  from t [of "''tsc''"] one
  have a: "map_get (scripts (build_tables sample [''/b/.bin'', ''/a/.bin''] None)) ''tsc'' =
     map_get (scripts (build_tables sample [''/a/.bin'', ''/b/.bin''] None)) ''tsc''"
    by blast
  have ne: "filter (listed sample ''lint'') [''/b/.bin'', ''/a/.bin''] \<noteq> []"
    unfolding f by simp
  have "map_get (scripts (build_tables sample [''/b/.bin'', ''/a/.bin''] None)) ''lint'' =
     Str (quoteForShell sample (path_join sample
            (last (filter (listed sample ''lint'') [''/b/.bin'', ''/a/.bin''])) ''lint''))"
    by (rule t [of "''lint''", THEN conjunct2, THEN conjunct2, rule_format, OF conjI [OF k ne]])
  then have b: "map_get (scripts (build_tables sample [''/b/.bin'', ''/a/.bin''] None)) ''lint'' =
     Str ''/a/.bin/lint''"
    unfolding f using q by simp
  from a h f b show ?thesis by (intro conjI)
qed

subsection \<open>C4: the suggestion\<close>

text \<open>
  Claim C4. The suggestion computation examines every known name and returns one within
  edit distance less than 2 of the attempted action, or none; with the scripts \<open>build\<close>
  and \<open>test\<close>, the action \<open>buld\<close> is answered with the suggestion \<open>build\<close>.

  The code examines no name. Line 126 is \<^verbatim>\<open>for (const commandName in scripts)\<close> on a Map:
  it enumerates the object's properties, and a Map that was only filled through
  \<^verbatim>\<open>set\<close> has none. So \<open>build\<close> is in the table, at distance 1 from \<open>buld\<close>, and the
  message carries no suggestion.
\<close>

theorem near_miss_gets_no_suggestion:
  "map_has (scripts (build_tables sample []
      (Some (manifest [(''build'', ''compile''), (''test'', ''jest'')])))) ''build'' \<and>
   leven sample ''build'' ''buld'' = 1 \<and>
   suggest sample
     (scripts (build_tables sample []
        (Some (manifest [(''build'', ''compile''), (''test'', ''jest'')]))))
     ''buld'' = None \<and>
   snd (run sample [] (Some (manifest [(''build'', ''compile''), (''test'', ''jest'')]))
          None [''buld''] st0) =
     Rejected (MessageError (''Command '' @ [CHR 0x22] @ ''buld'' @ [CHR 0x22] @ '' not found.''))"
  by code_simp

text \<open>
  Extra X2. For every table that \<open>run\<close> builds and every action, the loop of lines 126
  to 131 ends with no suggestion, and the message is the one without addendum.
\<close>

theorem built_table_never_suggests:
  "suggest c (scripts (build_tables c binFolders pkgScripts)) action = None \<and>
   not_found_msg c (scripts (build_tables c binFolders pkgScripts)) action =
     ''Command '' @ JSON_stringify c action @ '' not found.''"
  by (simp add: not_found_msg_def suggest_build_tables)

subsection \<open>C5: the built-in action env\<close>

text \<open>
  Claim C5, as stated: resolving \<open>env\<close> prints the execution environment without
  consulting the table or the manifest scripts, whether or not an entry named \<open>env\<close>
  exists. It fails: the built-in is the \<^verbatim>\<open>else if\<close> of line 121, reached only when no
  command was found, so a manifest script named \<open>env\<close> runs instead of the built-in.
\<close>

theorem env_script_shadows_builtin:
  "trace (fst (run sample [] (Some (manifest [(''env'', ''printenv'')])) None [''env''] st0)) =
     [ExecCommand ''env'' (Str ''printenv'') None] \<and>
   trace (fst (run sample [] None None [''env''] st0)) = [ReportLog ''{}'']"
  by code_simp

text \<open>
  Claim C5, amended. When the scripts object has no member named \<open>env\<close> and no existing
  executable directory has an entry named \<open>env\<close>, resolving \<open>env\<close> prints the execution
  environment as formatted text and ends: no command runs and the process environment is
  left as it was. When there is such a member or entry, nothing is printed: the only new
  events are started steps (none when the assertion of line 95 or 104 fails).
\<close>

theorem env_builtin_when_no_env_entry:
  "(\<not> in_manifest pkgScripts ''env'' \<and> (\<forall>d\<in>set binFolders. \<not> listed c ''env'' d) \<longrightarrow>
      run c binFolders pkgScripts answer (''env'' # args) st =
        (st\<lparr>trace := trace st @ [ReportLog (makeEnv_text c)]\<rparr>, Fulfilled)) \<and>
   (in_manifest pkgScripts ''env'' \<or> (\<exists>d\<in>set binFolders. listed c ''env'' d) \<longrightarrow>
      (\<exists>evs. trace (fst (run c binFolders pkgScripts answer (''env'' # args) st)) =
                trace st @ evs \<and> list_all is_exec evs))"
proof (intro conjI impI)
  let ?t = "build_tables c binFolders pkgScripts"
  assume a: "\<not> in_manifest pkgScripts ''env'' \<and> (\<forall>d\<in>set binFolders. \<not> listed c ''env'' d)"
  have "manifest_key pkgScripts ''env'' \<Longrightarrow> in_manifest pkgScripts ''env''"
    by (cases pkgScripts) (simp_all add: manifest_key_def in_manifest_def js_in_def Object_keys_def)
  with a have "\<not> map_has (scripts ?t) ''env''"
    by (auto simp: map_has_build_tables)
  with a have "build_cmds pkgScripts (scripts ?t) ''env'' = Inr []"
    by (simp add: build_cmds_Nil_iff)
  then show "run c binFolders pkgScripts answer (''env'' # args) st =
        (st\<lparr>trace := trace st @ [ReportLog (makeEnv_text c)]\<rparr>, Fulfilled)"
    by (simp add: run_def runCommand_def emit_def)
next
  let ?t = "build_tables c binFolders pkgScripts"
  let ?st = "st\<lparr>process_env := (process_env st)(''YARN_WRAP_OUTPUT'' \<mapsto> ''false'')\<rparr>"
  assume b: "in_manifest pkgScripts ''env'' \<or> (\<exists>d\<in>set binFolders. listed c ''env'' d)"
  then have "in_manifest pkgScripts ''env'' \<or> map_has (scripts ?t) ''env''"
    by (auto simp: map_has_build_tables)
  then have ne: "build_cmds pkgScripts (scripts ?t) ''env'' \<noteq> Inr []"
    by (simp add: build_cmds_Nil_iff)
  show "\<exists>evs. trace (fst (run c binFolders pkgScripts answer (''env'' # args) st)) =
                trace st @ evs \<and> list_all is_exec evs"
  proof (cases "build_cmds pkgScripts (scripts ?t) ''env''")
    case (Inl e)
    then have "trace (fst (run c binFolders pkgScripts answer (''env'' # args) st)) =
                 trace st @ [] \<and> list_all is_exec []"
      by (simp add: run_def runCommand_def)
    then show ?thesis by blast
  next
    case (Inr cmds)
    with ne have "cmds \<noteq> []" by simp
    with Inr have "run c binFolders pkgScripts answer (''env'' # args) st =
                     exec_cmds c ''env'' args cmds ?st"
      by (simp add: run_def runCommand_def)
    with exec_cmds_trace [of c "''env''" args cmds ?st] show ?thesis by simp
  qed
qed

theorem env_builtin_when_no_env_entry_witness:
  "run sample [''/a/.bin''] (Some (manifest [(''build'', ''compile'')])) None [''env''] st0 =
     (st0\<lparr>trace := [ReportLog ''{}'']\<rparr>, Fulfilled) \<and>
   in_manifest (Some (manifest [(''env'', ''printenv'')])) ''env'' \<and>
   (\<exists>evs. trace (fst (run sample [''/a/.bin''] (Some (manifest [(''env'', ''printenv'')])) None
                         [''env'', ''HOME''] st0)) = evs \<and> list_all is_exec evs)"
proof -
  have a: "\<not> in_manifest (Some (manifest [(''build'', ''compile'')])) ''env''"
    by (simp add: in_manifest_def js_in_def manifest_def)
  have b: "\<forall>d\<in>set [''/a/.bin'']. \<not> listed sample ''env'' d"
    by (simp add: listed_def sample_def two_bins_def)
  have m: "in_manifest (Some (manifest [(''env'', ''printenv'')])) ''env''"
    by (simp add: in_manifest_def js_in_def manifest_def)
  from env_builtin_when_no_env_entry
         [of "Some (manifest [(''build'', ''compile'')])" "[''/a/.bin'']" sample None "[]" st0] a b
  have "run sample [''/a/.bin''] (Some (manifest [(''build'', ''compile'')])) None [''env''] st0 =
     (st0\<lparr>trace := trace st0 @ [ReportLog (makeEnv_text sample)]\<rparr>, Fulfilled)"
    by blast
  then have p: "run sample [''/a/.bin''] (Some (manifest [(''build'', ''compile'')])) None
                  [''env''] st0 = (st0\<lparr>trace := [ReportLog ''{}'']\<rparr>, Fulfilled)"
    by (simp add: st0_def) (simp add: sample_def)
  from env_builtin_when_no_env_entry
         [of "Some (manifest [(''env'', ''printenv'')])" "[''/a/.bin'']" sample None
             "[''HOME'']" st0] m
  have "\<exists>evs. trace (fst (run sample [''/a/.bin''] (Some (manifest [(''env'', ''printenv'')]))
                            None [''env'', ''HOME''] st0)) = trace st0 @ evs \<and>
              list_all is_exec evs"
    by blast
  then have q: "\<exists>evs. trace (fst (run sample [''/a/.bin'']
                   (Some (manifest [(''env'', ''printenv'')])) None [''env'', ''HOME''] st0)) = evs \<and>
                 list_all is_exec evs"
    by (simp add: st0_def)
  from p m q show ?thesis by (intro conjI)
qed

subsection \<open>C6: a script with an empty body\<close>

text \<open>
  Claim C6. A manifest script whose body is the empty string is a valid table entry:
  table construction inserts its key, and resolving that action succeeds, the assertion
  \<open>Script must exist\<close> never firing for a manifest-declared action.

  The code inserts the key (line 77 stores the empty string) and then fails the
  assertion: line 95 tests the stored string for truth, and the empty string is falsy.
  With the script \<open>noop\<close> of empty body, the action \<open>noop\<close> is rejected and nothing runs.
\<close>

theorem empty_body_script_fails_invariant:
  "map_has (scripts (build_tables sample [] (Some (manifest [(''noop'', [])])))) ''noop'' \<and>
   map_get (scripts (build_tables sample [] (Some (manifest [(''noop'', [])])))) ''noop'' =
     Str [] \<and>
   snd (run sample [] (Some (manifest [(''noop'', [])])) None [''noop''] st0) =
     Rejected (InvariantViolation ''Script must exist'') \<and>
   trace (fst (run sample [] (Some (manifest [(''noop'', [])])) None [''noop''] st0)) = []"
  by code_simp

subsection \<open>C7: when the command is not found\<close>

text \<open>
  Claim C7. Resolution raises the error \<open>Command ... not found\<close> exactly when the action
  is neither a key of the manifest scripts nor a key of the table, and is not \<open>env\<close>; the
  message holds the attempted name (as \<^verbatim>\<open>JSON.stringify\<close> writes it), followed by the
  \<open>Did you mean\<close> addendum exactly when the loop of lines 126 to 131 found a candidate.

  Two conditions on the input are written out. The scripts object inherits no member:
  line 88 tests \<^verbatim>\<open>action in pkgScripts\<close>, which is also true of an inherited name, and
  such a name then fails the assertion of line 95 instead. The Map has no enumerable
  property of empty name: line 134 tests the candidate for truth, so a candidate that is
  the empty string would get no addendum. Every table that \<open>run\<close> builds meets the
  second condition.
\<close>

theorem command_not_found_exactly_when_unmatched:
  assumes "\<forall>ps. pkgScripts = Some ps \<longrightarrow> inherited ps = []"
    and "[] \<notin> set (for_in_keys tbl)"
  shows
  "((\<exists>m. snd (runCommand c pkgScripts tbl action args st) = Rejected (MessageError m)) \<longleftrightarrow>
      \<not> manifest_key pkgScripts action \<and> \<not> map_has tbl action \<and> action \<noteq> ''env'') \<and>
   (\<forall>m. snd (runCommand c pkgScripts tbl action args st) = Rejected (MessageError m) \<longrightarrow>
      m = ''Command '' @ JSON_stringify c action @ '' not found.'' @
          (case suggest c tbl action of
             None \<Rightarrow> []
           | Some s \<Rightarrow> '' Did you mean '' @ JSON_stringify c s @ ''?''))"
proof (intro conjI allI impI)
  show "(\<exists>m. snd (runCommand c pkgScripts tbl action args st) = Rejected (MessageError m)) \<longleftrightarrow>
      \<not> manifest_key pkgScripts action \<and> \<not> map_has tbl action \<and> action \<noteq> ''env''"
    unfolding in_manifest_own [OF assms(1), symmetric] by (rule runCommand_not_found_iff)
next
  fix m
  assume "snd (runCommand c pkgScripts tbl action args st) = Rejected (MessageError m)"
  then have "runCommand c pkgScripts tbl action args st =
      (fst (runCommand c pkgScripts tbl action args st), Rejected (MessageError m))"
    by (metis prod.collapse)
  then have "m = not_found_msg c tbl action"
    by (rule runCommand_not_found_state [THEN conjunct2])
  then show "m = ''Command '' @ JSON_stringify c action @ '' not found.'' @
          (case suggest c tbl action of
             None \<Rightarrow> []
           | Some s \<Rightarrow> '' Did you mean '' @ JSON_stringify c s @ ''?'')"
    by (simp only: not_found_msg_eq [OF assms(2)])
qed

theorem command_not_found_exactly_when_unmatched_witness:
  "inherited (manifest [(''build'', ''compile'')]) = [] \<and>
   for_in_keys (scripts (build_tables sample [''/a/.bin'']
                  (Some (manifest [(''build'', ''compile'')])))) = [] \<and>
   \<not> manifest_key (Some (manifest [(''build'', ''compile'')])) ''xyz'' \<and>
   map_has (scripts (build_tables sample [''/a/.bin''] (Some (manifest [(''build'', ''compile'')]))))
     ''xyz'' = False \<and>
   (\<exists>m. snd (runCommand sample (Some (manifest [(''build'', ''compile'')]))
            (scripts (build_tables sample [''/a/.bin''] (Some (manifest [(''build'', ''compile'')]))))
            ''xyz'' [] st0) = Rejected (MessageError m) \<and>
        m = ''Command '' @ [CHR 0x22] @ ''xyz'' @ [CHR 0x22] @ '' not found.'')"
proof -
  let ?ps = "Some (manifest [(''build'', ''compile'')])"
  let ?tbl = "scripts (build_tables sample [''/a/.bin''] ?ps)"
  let ?r = "snd (runCommand sample ?ps ?tbl ''xyz'' [] st0)"
  have i: "inherited (manifest [(''build'', ''compile'')]) = []" by (simp add: manifest_def)
  then have h1: "\<forall>ps. ?ps = Some ps \<longrightarrow> inherited ps = []" by simp
  have k: "for_in_keys ?tbl = []" by code_simp
  then have h2: "[] \<notin> set (for_in_keys ?tbl)" by simp
  have a: "\<not> manifest_key ?ps ''xyz''"
    by (simp add: manifest_key_def Object_keys_def manifest_def)
  have b: "map_has ?tbl ''xyz'' = False" by code_simp
  have n: "''xyz'' \<noteq> ''env''" by simp
  have s: "suggest sample ?tbl ''xyz'' = None" by (rule suggest_build_tables)
  have j: "JSON_stringify sample ''xyz'' = [CHR 0x22] @ ''xyz'' @ [CHR 0x22]"
    by (simp add: sample_def)
  note t = command_not_found_exactly_when_unmatched [OF h1 h2, of sample "''xyz''" "[]" st0]
  from t [THEN conjunct1] a b n obtain m where m: "?r = Rejected (MessageError m)"
    by blast
  from t [THEN conjunct2, rule_format, OF m]
  have "m = ''Command '' @ [CHR 0x22] @ ''xyz'' @ [CHR 0x22] @ '' not found.''"
    by (simp add: s j)
  with m have e: "\<exists>m. ?r = Rejected (MessageError m) \<and>
        m = ''Command '' @ [CHR 0x22] @ ''xyz'' @ [CHR 0x22] @ '' not found.''"
    by (intro exI conjI)
  from i k a b e show ?thesis by (intro conjI)
qed

subsection \<open>C8: no action, no scripts, some executables\<close>

text \<open>
  Claim C8. Called with no action, with no manifest script and with at least one
  executable, \<open>run\<close> reports that no command was specified, lists the names of the
  executables and reports that no scripts are available; it asks no question and starts
  no command.
\<close>

theorem no_action_no_scripts:
  assumes "pkgScripts = None \<or> (\<exists>ps. pkgScripts = Some ps \<and> own ps = [])"
    and "\<exists>d\<in>set binFolders. \<exists>name. listed c name d"
  shows "binCommands (build_tables c binFolders pkgScripts) \<noteq> [] \<and>
         set (binCommands (build_tables c binFolders pkgScripts)) =
           {name. \<exists>d\<in>set binFolders. listed c name d} \<and>
         run c binFolders pkgScripts answer [] st =
           (st\<lparr>trace := trace st @
               [ReportError (lang c ''commandNotSpecified''),
                ReportInfo (lang c ''binCommands'' @
                            join '', '' (binCommands (build_tables c binFolders pkgScripts))),
                ReportError (lang c ''noScriptsAvailable'')]\<rparr>, Fulfilled)"
proof -
  let ?t = "build_tables c binFolders pkgScripts"
  have bins: "set (binCommands ?t) = {name. \<exists>d\<in>set binFolders. listed c name d}"
    by (rule binCommands_build_tables)
  with assms(2) have ne: "binCommands ?t \<noteq> []" by auto
  have "set (pkgCommands ?t) = {}" using assms(1)
    by (auto simp: pkgCommands_build_tables)
  then have pk: "pkgCommands ?t = []" by simp
  have "run c binFolders pkgScripts answer [] st =
           (st\<lparr>trace := trace st @
               [ReportError (lang c ''commandNotSpecified''),
                ReportInfo (lang c ''binCommands'' @ join '', '' (binCommands ?t)),
                ReportError (lang c ''noScriptsAvailable'')]\<rparr>, Fulfilled)"
    using ne pk by (simp add: run_def list_commands_def emit_def Let_def)
  with bins ne show ?thesis by blast
qed

theorem no_action_no_scripts_witness:
  "run sample [''/a/.bin'', ''/b/.bin''] (Some (manifest [])) (Some ''lint'') [] st0 =
     (st0\<lparr>trace := [ReportError ''commandNotSpecified'', ReportInfo ''binCommandslint, tsc'',
                     ReportError ''noScriptsAvailable'']\<rparr>, Fulfilled)"
proof -
  have a: "Some (manifest []) = None \<or> (\<exists>ps. Some (manifest []) = Some ps \<and> own ps = [])"
    by (simp add: manifest_def)
  have b: "\<exists>d\<in>set [''/a/.bin'', ''/b/.bin'']. \<exists>name. listed sample name d"
    by (auto simp: listed_def sample_def two_bins_def)
  have c: "binCommands (build_tables sample [''/a/.bin'', ''/b/.bin''] (Some (manifest []))) =
             [''lint'', ''tsc'']"
    by code_simp
  from no_action_no_scripts [OF a b, of "Some ''lint''" st0]
  show ?thesis by (simp add: c st0_def) (simp add: sample_def)
qed

subsection \<open>C9: not found means nothing was started\<close>

text \<open>
  Claim C9. Whenever \<open>runCommand\<close> raises the error \<open>Command ... not found\<close>, no step has
  been started and the state is the one it was called in: the trace has no new event and
  the process environment is unchanged.
\<close>

theorem not_found_before_any_step:
  assumes "runCommand c pkgScripts tbl action args st = (st', Rejected (MessageError m))"
  shows "st' = st"
  using runCommand_not_found_state [OF assms] by (rule conjunct1)

theorem not_found_before_any_step_witness:
  "runCommand sample (Some (manifest [(''build'', ''compile'')]))
     (scripts (build_tables sample [] (Some (manifest [(''build'', ''compile'')])))) ''xyz''
     [''--fast''] st0 =
     (st0, Rejected (MessageError (''Command '' @ [CHR 0x22] @ ''xyz'' @ [CHR 0x22] @
                                    '' not found.'')))"
proof -
  let ?r = "runCommand sample (Some (manifest [(''build'', ''compile'')]))
     (scripts (build_tables sample [] (Some (manifest [(''build'', ''compile'')])))) ''xyz''
     [''--fast''] st0"
  let ?e = "Rejected (MessageError (''Command '' @ [CHR 0x22] @ ''xyz'' @ [CHR 0x22] @
                                     '' not found.''))"
  have s: "snd ?r = ?e" by code_simp
  then have r: "?r = (fst ?r, ?e)" by (metis prod.collapse)
  from not_found_before_any_step [OF r] have "fst ?r = st0" .
  with r show ?thesis by simp
qed

subsection \<open>C10: the flag YARN_WRAP_OUTPUT\<close>

text \<open>
  Claim C10. \<open>runCommand\<close> sets the entry \<open>YARN_WRAP_OUTPUT\<close> of the process environment
  to \<open>false\<close> if and only if the resolved plan has at least one step; otherwise (the
  built-in \<open>env\<close>, the error \<open>Command ... not found\<close>, a failed assertion) the process
  environment is left as it was.
\<close>

theorem wrap_output_flag_iff_plan:
  "process_env (fst (runCommand c pkgScripts tbl action args st)) =
     (if \<exists>cmds. build_cmds pkgScripts tbl action = Inr cmds \<and> cmds \<noteq> []
      then (process_env st)(''YARN_WRAP_OUTPUT'' \<mapsto> ''false'')
      else process_env st)"
  by (cases "build_cmds pkgScripts tbl action")
     (auto simp: runCommand_def exec_cmds_env emit_def)

theorem wrap_output_flag_iff_plan_witness:
  "process_env (fst (runCommand sample (Some (manifest [(''build'', ''compile'')]))
      (scripts (build_tables sample [] (Some (manifest [(''build'', ''compile'')]))))
      ''build'' [] st0))
     ''YARN_WRAP_OUTPUT'' = Some ''false'' \<and>
   process_env (fst (runCommand sample (Some (manifest [(''build'', ''compile'')]))
      (scripts (build_tables sample [] (Some (manifest [(''build'', ''compile'')]))))
      ''xyz'' [] st0))
     ''YARN_WRAP_OUTPUT'' = None \<and>
   process_env (fst (runCommand sample (Some (manifest [(''build'', ''compile'')]))
      (scripts (build_tables sample [] (Some (manifest [(''build'', ''compile'')]))))
      ''env'' [] st0))
     ''YARN_WRAP_OUTPUT'' = None"
proof -
  let ?ps = "Some (manifest [(''build'', ''compile'')])"
  let ?tbl = "scripts (build_tables sample [] ?ps)"
  have a: "build_cmds ?ps ?tbl ''build'' = Inr [(''build'', Str ''compile'')]"
    by code_simp
  have b: "build_cmds ?ps ?tbl ''xyz'' = Inr []"
    by code_simp
  have e: "build_cmds ?ps ?tbl ''env'' = Inr []"
    by code_simp
  from wrap_output_flag_iff_plan [of sample ?ps ?tbl "''build''" "[]" st0]
       wrap_output_flag_iff_plan [of sample ?ps ?tbl "''xyz''" "[]" st0]
       wrap_output_flag_iff_plan [of sample ?ps ?tbl "''env''" "[]" st0]
  show ?thesis by (simp add: a b e st0_def)
qed

end
